theory Spec2Isabelle
  imports Complex_Main "HOL-Library.AList" "HOL-Library.Log_Nat" "HOL-Library.Word"
begin

section \<open>Strings of the program\<close>

text \<open>
  A JavaScript string is a sequence of UTF-16 code units. The model carries the code units
  below 256 as \<^typ>\<open>char\<close>, so a \<^typ>\<open>string\<close> is a JavaScript string whose
  code units all lie in that range.
\<close>

abbreviation LF :: char where
  "LF \<equiv> CHR 0x0A"

abbreviation HASH :: char where
  "HASH \<equiv> CHR ''#''"

text \<open>
  The characters that \<open>\s\<close> of a regular expression matches and that
  \<open>String.prototype.trim\<close> strips (WhiteSpace and LineTerminator of ECMAScript), as far
  as they are code units below 256: TAB, LF, VT, FF, CR, SPACE and NBSP.
\<close>

definition isWhiteSpace :: "char \<Rightarrow> bool" where
  "isWhiteSpace c \<longleftrightarrow>
     c = CHR 0x09 \<or> c = CHR 0x0A \<or> c = CHR 0x0B \<or> c = CHR 0x0C \<or> c = CHR 0x0D \<or>
     c = CHR 0x20 \<or> c = CHR 0xA0"

text \<open>\<open>String.prototype.trim\<close>: the string without its leading and trailing white space.\<close>

definition trim :: "string \<Rightarrow> string" where
  "trim s = rev (dropWhile isWhiteSpace (rev (dropWhile isWhiteSpace s)))"

section \<open>AiResultCard: the presenter\<close>

subsection \<open>The regular expression \<open>/([^\n])\s*(##)/g\<close>\<close>

text \<open>The literal \<open>##\<close> at the start of the input; the result is what follows it.\<close>

fun match_hashes :: "string \<Rightarrow> string option" where
  "match_hashes (c1 # c2 # rest) = (if c1 = HASH \<and> c2 = HASH then Some rest else None)"
| "match_hashes _ = None"

text \<open>
  \<open>\s*(##)\<close> at the start of the input. The star is greedy and backtracks: it first takes
  one more white-space character and tries the rest of the pattern after it, and only when
  that fails does it try \<open>##\<close> at the current position.
\<close>

fun match_spaces_hashes :: "string \<Rightarrow> string option" where
  "match_spaces_hashes [] = match_hashes []"
| "match_spaces_hashes (c # cs) =
     (if isWhiteSpace c
      then (case match_spaces_hashes cs of
              Some rest \<Rightarrow> Some rest
            | None \<Rightarrow> match_hashes (c # cs))
      else match_hashes (c # cs))"

text \<open>
  The whole pattern at the start of the input: one character other than a line feed (group
  1), then \<open>\s*(##)\<close>. The result is group 1 and the input after the match; group 2 is
  always \<open>##\<close>.
\<close>

fun match_heading :: "string \<Rightarrow> (char \<times> string) option" where
  "match_heading [] = None"
| "match_heading (c # cs) =
     (if c \<noteq> LF
      then (case match_spaces_hashes cs of Some rest \<Rightarrow> Some (c, rest) | None \<Rightarrow> None)
      else None)"

lemma match_hashes_length:
  "match_hashes s = Some rest \<Longrightarrow> length rest < length s"
  by (induction s rule: match_hashes.induct) (auto split: if_splits)

lemma match_spaces_hashes_length:
  "match_spaces_hashes s = Some rest \<Longrightarrow> length rest < length s"
proof (induction s)
  case Nil
  then show ?case by simp
next
  case (Cons c cs)
  then show ?case
    using match_hashes_length [of "c # cs" rest]
    by (auto split: if_splits option.splits)
qed

lemma match_heading_length:
  "match_heading s = Some (c, rest) \<Longrightarrow> length rest < length s"
  using match_spaces_hashes_length
  by (cases s) (fastforce split: if_splits option.splits)+

text \<open>
  \<open>text.replace(/([^\n])\s*(##)/g, '$1\n\n$2')\<close>: the global replace scans from the left;
  where the pattern matches, the match is replaced by group 1, two line feeds and group 2,
  and the scan goes on after the match; where it does not, the character is kept and the
  scan moves one character on. A match is never empty.
\<close>

function replace_headings :: "string \<Rightarrow> string" where
  "replace_headings [] = []"
| "replace_headings (c # cs) =
     (case match_heading (c # cs) of
        Some (g1, rest) \<Rightarrow> g1 # LF # LF # HASH # HASH # replace_headings rest
      | None \<Rightarrow> c # replace_headings cs)"
  by pat_completeness auto
termination
proof (relation "measure length")
  show "wf (measure length)" by simp
next
  fix c cs x g1 rest
  assume "match_heading (c # cs) = Some x" and "(g1, rest) = x"
  then have "match_heading (c # cs) = Some (g1, rest)" by simp
  then show "(rest, c # cs) \<in> measure length"
    using match_heading_length by fastforce
next
  fix c :: char and cs :: string
  show "(cs, c # cs) \<in> measure length" by simp
qed

text \<open>
  \<open>formattedInstruction\<close>, as a function of \<open>result.systemInstruction\<close> (the only
  dependency of the memo): the empty string is falsy and gives the empty string.
\<close>

definition formattedInstruction :: "string \<Rightarrow> string" where
  "formattedInstruction systemInstruction =
     (if systemInstruction = [] then []
      else let text = systemInstruction;
               text = replace_headings text
           in text)"

subsection \<open>Copy to clipboard\<close>






section \<open>JavaScript values\<close>

text \<open>
  \<open>JSON.parse\<close> returns \<open>any\<close>, and the finder reads that value with no check of its
  shape, so the model keeps the values untyped. A number is an IEEE 754 binary64 value; the
  two zeros are one value here (\<open>||\<close> and a \<open>Set\<close> do not tell them apart), and
  \<open>NaN\<close> is left out, since no JSON text denotes it.
\<close>

datatype exn = SyntaxError | TypeError | ApiError

datatype number = Finite rat | PosInfinity | NegInfinity

text \<open>
  A string inside a value keeps its UTF-16 code units in full: an escape in a text of
  plain characters can denote any of them. \<open>units\<close> reads a string of the model as
  such a string.
\<close>

type_synonym jsstring = "16 word list"

definition units :: "string \<Rightarrow> jsstring" where
  "units s = map of_char s"

datatype jsval =
    JUndefined
  | JNull
  | JBool bool
  | JNumber number
  | JString jsstring
  | JArray "jsval list"
  | JObject "(jsstring \<times> jsval) list"

text \<open>\<open>ToBoolean\<close>: what \<open>||\<close> and \<open>!\<close> test.\<close>

fun ToBoolean :: "jsval \<Rightarrow> bool" where
  "ToBoolean JUndefined = False"
| "ToBoolean JNull = False"
| "ToBoolean (JBool b) = b"
| "ToBoolean (JNumber n) = (n \<noteq> Finite 0)"
| "ToBoolean (JString s) = (s \<noteq> [])"
| "ToBoolean (JArray elems) = True"
| "ToBoolean (JObject members) = True"

text \<open>\<open>a || b\<close>, for operands whose evaluation has no effect.\<close>

definition js_or :: "jsval \<Rightarrow> jsval \<Rightarrow> jsval" where
  "js_or a b = (if ToBoolean a then a else b)"

text \<open>
  \<open>v.key\<close>, for the keys that the finder reads (\<open>recommendedVoices\<close>,
  \<open>systemInstruction\<close>, \<open>sampleText\<close>, \<open>scriptParts\<close>, \<open>voiceName\<close>): none of
  them is a property of a prototype, so only an object that \<open>JSON.parse\<close> built with that
  key has it. Reading a property of \<open>null\<close> or \<open>undefined\<close> throws a TypeError.
\<close>

fun Get :: "jsval \<Rightarrow> string \<Rightarrow> exn + jsval" where
  "Get JUndefined key = Inl TypeError"
| "Get JNull key = Inl TypeError"
| "Get (JObject members) key =
     Inr (case map_of members (units key) of Some v \<Rightarrow> v | None \<Rightarrow> JUndefined)"
| "Get v key = Inr JUndefined"

text \<open>Sequencing of computations that may throw.\<close>

definition and_then :: "exn + 'a \<Rightarrow> ('a \<Rightarrow> exn + 'b) \<Rightarrow> exn + 'b" where
  "and_then r f = (case r of Inl e \<Rightarrow> Inl e | Inr v \<Rightarrow> f v)"

fun traverse :: "('a \<Rightarrow> exn + 'b) \<Rightarrow> 'a list \<Rightarrow> exn + 'b list" where
  "traverse f [] = Inr []"
| "traverse f (x # xs) =
     and_then (f x) (\<lambda>y. and_then (traverse f xs) (\<lambda>ys. Inr (y # ys)))"

text \<open>
  \<open>v.map(f)\<close>: only an array has a callable \<open>map\<close>. On any other value \<open>v.map\<close> is
  \<open>undefined\<close>, or a JSON value under the key \<open>map\<close>, and the call throws a TypeError.
  An array from \<open>JSON.parse\<close> has no holes; the callback runs on each element from the
  left, and the first exception ends the call.
\<close>

fun Array_map :: "(jsval \<Rightarrow> exn + jsval) \<Rightarrow> jsval \<Rightarrow> exn + jsval list" where
  "Array_map f (JArray elems) = traverse f elems"
| "Array_map f v = Inl TypeError"

text \<open>
  \<open>SameValueZero\<close>, the equality of a \<open>Set\<close>, between two values read from different
  places of one \<open>JSON.parse\<close> result: primitive values are the same when they are equal;
  an array or an object is a fresh reference at each place, so it is the same as nothing
  found elsewhere.
\<close>

fun SameValueZero :: "jsval \<Rightarrow> jsval \<Rightarrow> bool" where
  "SameValueZero (JArray a) y = False"
| "SameValueZero (JObject a) y = False"
| "SameValueZero x y = (x = y)"

text \<open>
  A \<open>Set\<close> as the list of its elements in insertion order, which is the order in which
  it is iterated. \<open>new Set(xs)\<close> adds the elements of \<open>xs\<close> from the left, and
  \<open>add\<close> leaves the set as it is when the value is in it.
\<close>

definition Set_add :: "jsval list \<Rightarrow> jsval \<Rightarrow> jsval list" where
  "Set_add s x = (if list_ex (\<lambda>y. SameValueZero y x) s then s else s @ [x])"

definition new_Set :: "jsval list \<Rightarrow> jsval list" where
  "new_Set xs = foldl Set_add [] xs"

definition Array_from :: "jsval list \<Rightarrow> jsval list" where
  "Array_from s = s"

text \<open>The primitive values: all but arrays and objects.\<close>

fun is_primitive :: "jsval \<Rightarrow> bool" where
  "is_primitive (JArray a) = False"
| "is_primitive (JObject a) = False"
| "is_primitive v = True"

text \<open>
  First-occurrence order, as a specification to compare \<open>new Set\<close> with: the first value
  stays in front, what is the same as it is dropped from the rest, and so on through the
  rest.
\<close>

function first_occurrences :: "jsval list \<Rightarrow> jsval list" where
  "first_occurrences [] = []"
| "first_occurrences (x # xs) = x # first_occurrences (filter (\<lambda>y. \<not> SameValueZero x y) xs)"
  by pat_completeness auto
termination
  by (relation "measure length") (auto simp: less_Suc_eq_le)


section \<open>\<open>JSON.parse\<close>\<close>

text \<open>
  The JSON grammar of ECMA-404, as \<open>JSON.parse\<close> reads it: a tokenizer, then a pushdown
  automaton over the tokens. Every text outside the grammar is a SyntaxError.
\<close>

subsection \<open>Number literals\<close>

text \<open>
  The Number value of a literal: its mathematical value, rounded to the nearest binary64
  value, ties to the even significand, and to an infinity from \<open>2^1024\<close> on.
\<close>


definition round_half_even :: "rat \<Rightarrow> int" where
  "round_half_even x =
     (let f = \<lfloor>x\<rfloor>; d = x - of_int f
      in if d < 1 / 2 then f else if 1 / 2 < d then f + 1 else if even f then f else f + 1)"

definition floor_log2 :: "rat \<Rightarrow> int" where
  "floor_log2 x =
     (let (a, b) = quotient_of x; k = bitlen a - bitlen b
      in if of_int b * power_int 2 k \<le> (of_int a :: rat) then k else k - 1)"

definition binary64 :: "rat \<Rightarrow> number" where
  "binary64 x =
     (if x = 0 then Finite 0
      else let e = max (floor_log2 \<bar>x\<bar>) (- 1022);
               ulp = power_int 2 (e - 52);
               r = of_int (round_half_even (x / ulp)) * ulp
           in if 2 ^ 1024 \<le> r then PosInfinity
              else if r \<le> - (2 ^ 1024) then NegInfinity
              else Finite r)"

definition isDigit :: "char \<Rightarrow> bool" where
  "isDigit c \<longleftrightarrow> 48 \<le> (of_char c :: nat) \<and> (of_char c :: nat) \<le> 57"

definition digits_value :: "string \<Rightarrow> int" where
  "digits_value ds = foldl (\<lambda>n c. 10 * n + (of_char c - 48)) 0 ds"

definition lex_fraction :: "string \<Rightarrow> (string \<times> string) option" where
  "lex_fraction s =
     (case s of
        c # r \<Rightarrow>
          if c = CHR ''.''
          then (if takeWhile isDigit r = [] then None
                else Some (takeWhile isDigit r, dropWhile isDigit r))
          else Some ([], s)
      | [] \<Rightarrow> Some ([], s))"

definition lex_exponent_sign :: "string \<Rightarrow> int \<times> string" where
  "lex_exponent_sign s =
     (case s of
        c # r \<Rightarrow> if c = CHR ''-'' then (- 1, r) else if c = CHR ''+'' then (1, r) else (1, s)
      | [] \<Rightarrow> (1, s))"

definition lex_exponent :: "string \<Rightarrow> (int \<times> string) option" where
  "lex_exponent s =
     (case s of
        c # r \<Rightarrow>
          if c = CHR ''e'' \<or> c = CHR ''E''
          then (let (sgn, r1) = lex_exponent_sign r
                in if takeWhile isDigit r1 = [] then None
                   else Some (sgn * digits_value (takeWhile isDigit r1),
                              dropWhile isDigit r1))
          else Some (0, s)
      | [] \<Rightarrow> Some (0, s))"

definition lex_minus :: "string \<Rightarrow> bool \<times> string" where
  "lex_minus s = (case s of c # r \<Rightarrow> if c = CHR ''-'' then (True, r) else (False, s) | [] \<Rightarrow> (False, s))"

definition lex_number :: "string \<Rightarrow> (number \<times> string) option" where
  "lex_number s =
     (let (neg, s1) = lex_minus s;
          ip = takeWhile isDigit s1
      in if ip = [] \<or> (1 < length ip \<and> hd ip = CHR ''0'') then None
         else (case lex_fraction (dropWhile isDigit s1) of
                 None \<Rightarrow> None
               | Some (fr, s3) \<Rightarrow>
                   (case lex_exponent s3 of
                      None \<Rightarrow> None
                    | Some (ex, s4) \<Rightarrow>
                        (let mv = of_int (digits_value (ip @ fr)) * power_int 10 (ex - int (length fr))
                         in Some (binary64 (if neg then - mv else mv), s4)))))"

subsection \<open>String literals\<close>

text \<open>
  A string literal after its opening quote: the characters up to the closing quote, with
  the escapes replaced, and the input after it. A control character below U+0020 is not
  allowed. An escape with \<open>u\<close> and four hexadecimal digits denotes the code unit
  of that value, whatever it is; a character of the text stands for the code unit of its
  own value.
\<close>

definition hex_value :: "char \<Rightarrow> nat option" where
  "hex_value c =
     (let n = (of_char c :: nat)
      in if 48 \<le> n \<and> n \<le> 57 then Some (n - 48)
         else if 65 \<le> n \<and> n \<le> 70 then Some (n - 55)
         else if 97 \<le> n \<and> n \<le> 102 then Some (n - 87)
         else None)"

definition unicode_escape :: "char \<Rightarrow> char \<Rightarrow> char \<Rightarrow> char \<Rightarrow> 16 word option" where
  "unicode_escape h1 h2 h3 h4 =
     (case (hex_value h1, hex_value h2, hex_value h3, hex_value h4) of
        (Some a, Some b, Some c, Some d) \<Rightarrow> Some (of_nat (((a * 16 + b) * 16 + c) * 16 + d))
      | _ \<Rightarrow> None)"

definition simple_escape :: "char \<Rightarrow> char option" where
  "simple_escape e =
     (if e = CHR 0x22 then Some (CHR 0x22)
      else if e = CHR 0x5C then Some (CHR 0x5C)
      else if e = CHR ''/'' then Some (CHR ''/'')
      else if e = CHR ''b'' then Some (CHR 0x08)
      else if e = CHR ''f'' then Some (CHR 0x0C)
      else if e = CHR ''n'' then Some (CHR 0x0A)
      else if e = CHR ''r'' then Some (CHR 0x0D)
      else if e = CHR ''t'' then Some (CHR 0x09)
      else None)"

definition add_char ::
  "16 word option \<Rightarrow> (jsstring \<times> string) option \<Rightarrow> (jsstring \<times> string) option" where
  "add_char c r =
     (case (c, r) of (Some x, Some (s, rest)) \<Rightarrow> Some (x # s, rest) | _ \<Rightarrow> None)"

fun lex_string :: "string \<Rightarrow> (jsstring \<times> string) option" where
  "lex_string [] = None"
| "lex_string [c] = (if c = CHR 0x22 then Some ([], []) else None)"
| "lex_string (c # e # cs) =
     (if c = CHR 0x22 then Some ([], e # cs)
      else if c = CHR 0x5C
      then (if e = CHR ''u''
            then (case cs of
                    h1 # h2 # h3 # h4 # cs' \<Rightarrow> add_char (unicode_escape h1 h2 h3 h4) (lex_string cs')
                  | _ \<Rightarrow> None)
            else add_char (map_option of_char (simple_escape e)) (lex_string cs))
      else if (of_char c :: nat) < 32 then None
      else add_char (Some (of_char c)) (lex_string (e # cs)))"

subsection \<open>Tokens\<close>

text \<open>White space between tokens is space, tab, line feed and carriage return only.\<close>

datatype token =
    LBrace | RBrace | LBracket | RBracket | Colon | Comma
  | TString jsstring | TNumber number | TTrue | TFalse | TNull

definition isJsonSpace :: "char \<Rightarrow> bool" where
  "isJsonSpace c \<longleftrightarrow> c = CHR 0x20 \<or> c = CHR 0x09 \<or> c = CHR 0x0A \<or> c = CHR 0x0D"

definition lex_literal :: "string \<Rightarrow> token \<Rightarrow> string \<Rightarrow> (token \<times> string) option" where
  "lex_literal word t s =
     (if take (length word) s = word then Some (t, drop (length word) s) else None)"

definition next_token :: "string \<Rightarrow> (token \<times> string) option" where
  "next_token s =
     (case s of
        [] \<Rightarrow> None
      | c # cs \<Rightarrow>
          if c = CHR ''{'' then Some (LBrace, cs)
          else if c = CHR ''}'' then Some (RBrace, cs)
          else if c = CHR ''['' then Some (LBracket, cs)
          else if c = CHR '']'' then Some (RBracket, cs)
          else if c = CHR '':'' then Some (Colon, cs)
          else if c = CHR '','' then Some (Comma, cs)
          else if c = CHR 0x22
          then (case lex_string cs of Some (str, rest) \<Rightarrow> Some (TString str, rest) | None \<Rightarrow> None)
          else if c = CHR ''-'' \<or> isDigit c
          then (case lex_number s of Some (n, rest) \<Rightarrow> Some (TNumber n, rest) | None \<Rightarrow> None)
          else if c = CHR ''t'' then lex_literal ''true'' TTrue s
          else if c = CHR ''f'' then lex_literal ''false'' TFalse s
          else if c = CHR ''n'' then lex_literal ''null'' TNull s
          else None)"

text \<open>Each token leaves less input than it found; the tokenizer terminates.\<close>

lemma add_char_Some: "add_char c r = Some (s, rest) \<Longrightarrow> \<exists>s'. r = Some (s', rest)"
  by (auto simp: add_char_def split: option.splits)

lemma lex_string_length: "lex_string s = Some (str, rest) \<Longrightarrow> length rest \<le> length s"
proof (induction s arbitrary: str rule: lex_string.induct)
  case 1
  then show ?case by simp
next
  case (2 c)
  then show ?case by (simp split: if_splits)
next
  case (3 c e cs)
  show ?case
  proof (cases "c = CHR 0x22")
    case True
    with 3 show ?thesis by simp
  next
    case q: False
    show ?thesis
    proof (cases "c = CHR 0x5C")
      case b: True
      show ?thesis
      proof (cases "e = CHR ''u''")
        case u: True
        from "3.prems" q b u obtain h1 h2 h3 h4 cs' where
          cs: "cs = h1 # h2 # h3 # h4 # cs'" and
          a: "add_char (unicode_escape h1 h2 h3 h4) (lex_string cs') = Some (str, rest)"
          by (auto split: list.splits)
        from add_char_Some [OF a] obtain s' where l: "lex_string cs' = Some (s', rest)" by blast
        have "length rest \<le> length cs'"
          by (rule "3.IH"(1) [OF q b u cs refl refl refl l])
        with cs show ?thesis by simp
      next
        case u: False
        from "3.prems" q b u have
          a: "add_char (map_option of_char (simple_escape e)) (lex_string cs) = Some (str, rest)"
          by simp
        from add_char_Some [OF a] obtain s' where "lex_string cs = Some (s', rest)" by blast
        from "3.IH"(2) [OF q b u this] show ?thesis by simp
      qed
    next
      case b: False
      from "3.prems" q b have lt: "\<not> (of_char c :: nat) < 32"
        and a: "add_char (Some (of_char c)) (lex_string (e # cs)) = Some (str, rest)"
        by (auto split: if_splits)
      from add_char_Some [OF a] obtain s' where "lex_string (e # cs) = Some (s', rest)" by blast
      from "3.IH"(3) [OF q b lt this] show ?thesis by simp
    qed
  qed
qed


lemma lex_fraction_length: "lex_fraction s = Some (fr, rest) \<Longrightarrow> length rest \<le> length s"
proof (cases s)
  case Nil
  then show "lex_fraction s = Some (fr, rest) \<Longrightarrow> ?thesis" by (simp add: lex_fraction_def)
next
  case (Cons c r)
  have "length (dropWhile isDigit r) \<le> length r" by (rule length_dropWhile_le)
  then show "lex_fraction s = Some (fr, rest) \<Longrightarrow> ?thesis"
    using Cons by (auto simp: lex_fraction_def split: if_splits)
qed

lemma lex_exponent_length: "lex_exponent s = Some (ex, rest) \<Longrightarrow> length rest \<le> length s"
proof (cases s)
  case Nil
  then show "lex_exponent s = Some (ex, rest) \<Longrightarrow> ?thesis" by (simp add: lex_exponent_def)
next
  case (Cons c r)
  obtain sgn r1 where sg: "lex_exponent_sign r = (sgn, r1)" by (cases "lex_exponent_sign r")
  then have "length r1 \<le> length r"
    by (auto simp: lex_exponent_sign_def split: list.splits if_splits)
  moreover have "length (dropWhile isDigit r1) \<le> length r1"
    by (rule length_dropWhile_le)
  ultimately show "lex_exponent s = Some (ex, rest) \<Longrightarrow> ?thesis"
    using Cons sg by (auto simp: lex_exponent_def split: if_splits)
qed

lemma lex_number_length:
  assumes "lex_number s = Some (n, rest)"
  shows "length rest < length s"
proof -
  obtain neg s1 where m: "lex_minus s = (neg, s1)" by (cases "lex_minus s")
  then have l1: "length s1 \<le> length s"
    by (auto simp: lex_minus_def split: list.splits if_splits)
  from assms m have ne: "takeWhile isDigit s1 \<noteq> []"
    by (auto simp: lex_number_def Let_def split: if_splits)
  have "length (takeWhile isDigit s1) + length (dropWhile isDigit s1) = length s1"
    by (metis length_append takeWhile_dropWhile_id)
  with ne have l2: "length (dropWhile isDigit s1) < length s1"
    by (cases "takeWhile isDigit s1") auto
  from assms m ne obtain fr s3 ex where
    f: "lex_fraction (dropWhile isDigit s1) = Some (fr, s3)" and
    e: "lex_exponent s3 = Some (ex, rest)"
    by (auto simp: lex_number_def Let_def split: if_splits option.splits)
  from lex_fraction_length [OF f] lex_exponent_length [OF e] l1 l2 show ?thesis by simp
qed


lemma lex_literal_length:
  "lex_literal word t s = Some (t', rest) \<Longrightarrow> word \<noteq> [] \<Longrightarrow> length rest < length s"
  by (cases s; cases word) (auto simp: lex_literal_def split: if_splits)

lemma next_token_length:
  assumes "next_token s = Some (t, rest)"
  shows "length rest < length s"
proof (cases s)
  case Nil
  with assms show ?thesis by (simp add: next_token_def)
next
  case (Cons c cs)
  consider
      (punct) "rest = cs"
    | (str) x where "lex_string cs = Some (x, rest)"
    | (num) n where "lex_number s = Some (n, rest)"
    | (lit) word t' where "lex_literal word t' s = Some (t, rest)" "word \<noteq> []"
    using assms Cons
    by (auto simp: next_token_def split: if_splits option.splits prod.splits)
  then show ?thesis
  proof cases
    case punct
    with Cons show ?thesis by simp
  next
    case str
    from lex_string_length [OF this] Cons show ?thesis by simp
  next
    case num
    then show ?thesis by (rule lex_number_length)
  next
    case lit
    then show ?thesis by (rule lex_literal_length)
  qed
qed

function tokens :: "string \<Rightarrow> token list option" where
  "tokens [] = Some []"
| "tokens (c # cs) =
     (if isJsonSpace c then tokens cs
      else (case next_token (c # cs) of
              None \<Rightarrow> None
            | Some (t, rest) \<Rightarrow> map_option (Cons t) (tokens rest)))"
  by pat_completeness auto
termination
proof (relation "measure length")
  show "wf (measure length)" by simp
next
  fix c :: char and cs :: string
  show "(cs, c # cs) \<in> measure length" by simp
next
  fix c cs x t rest
  assume "next_token (c # cs) = Some x" and "(t, rest) = x"
  then have "next_token (c # cs) = Some (t, rest)" by simp
  then show "(rest, c # cs) \<in> measure length"
    using next_token_length by fastforce
qed

subsection \<open>The grammar of values\<close>

text \<open>
  The automaton keeps the arrays and objects that are still open on a stack, the innermost
  first, and knows what may come next. A member with a key that the object already has
  replaces the value of that key.
\<close>

datatype frame = InArray "jsval list" | InObject "(jsstring \<times> jsval) list" jsstring

datatype expect =
    ExpectValue | ExpectValueOrEnd | ExpectKey | ExpectKeyOrEnd | ExpectColon
  | ExpectCommaOrEnd | Finished jsval

fun complete_value :: "jsval \<Rightarrow> frame list \<Rightarrow> expect \<times> frame list" where
  "complete_value v [] = (Finished v, [])"
| "complete_value v (InArray elems # stack) = (ExpectCommaOrEnd, InArray (elems @ [v]) # stack)"
| "complete_value v (InObject members key # stack) =
     (ExpectCommaOrEnd, InObject (AList.update key v members) key # stack)"

fun start_value :: "token \<Rightarrow> frame list \<Rightarrow> (expect \<times> frame list) option" where
  "start_value (TString s) stack = Some (complete_value (JString s) stack)"
| "start_value (TNumber n) stack = Some (complete_value (JNumber n) stack)"
| "start_value TTrue stack = Some (complete_value (JBool True) stack)"
| "start_value TFalse stack = Some (complete_value (JBool False) stack)"
| "start_value TNull stack = Some (complete_value JNull stack)"
| "start_value LBracket stack = Some (ExpectValueOrEnd, InArray [] # stack)"
| "start_value LBrace stack = Some (ExpectKeyOrEnd, InObject [] [] # stack)"
| "start_value _ stack = None"

fun close_array :: "frame list \<Rightarrow> (expect \<times> frame list) option" where
  "close_array (InArray elems # stack) = Some (complete_value (JArray elems) stack)"
| "close_array _ = None"

fun close_object :: "frame list \<Rightarrow> (expect \<times> frame list) option" where
  "close_object (InObject members key # stack) = Some (complete_value (JObject members) stack)"
| "close_object _ = None"

fun read_key :: "token \<Rightarrow> frame list \<Rightarrow> (expect \<times> frame list) option" where
  "read_key (TString k) (InObject members key # stack) =
     Some (ExpectColon, InObject members k # stack)"
| "read_key _ _ = None"

fun parse_step :: "expect \<times> frame list \<Rightarrow> token \<Rightarrow> (expect \<times> frame list) option" where
  "parse_step (ExpectValue, stack) t = start_value t stack"
| "parse_step (ExpectValueOrEnd, stack) t =
     (if t = RBracket then close_array stack else start_value t stack)"
| "parse_step (ExpectKey, stack) t = read_key t stack"
| "parse_step (ExpectKeyOrEnd, stack) t =
     (if t = RBrace then close_object stack else read_key t stack)"
| "parse_step (ExpectColon, stack) t = (if t = Colon then Some (ExpectValue, stack) else None)"
| "parse_step (ExpectCommaOrEnd, stack) t =
     (if t = RBracket then close_array stack
      else if t = RBrace then close_object stack
      else if t = Comma
      then (case stack of
              InArray elems # rest \<Rightarrow> Some (ExpectValue, stack)
            | InObject members key # rest \<Rightarrow> Some (ExpectKey, stack)
            | [] \<Rightarrow> None)
      else None)"
| "parse_step (Finished v, stack) t = None"

fun parse_tokens :: "expect \<times> frame list \<Rightarrow> token list \<Rightarrow> (expect \<times> frame list) option" where
  "parse_tokens st [] = Some st"
| "parse_tokens st (t # ts) =
     (case parse_step st t of None \<Rightarrow> None | Some st' \<Rightarrow> parse_tokens st' ts)"

definition JSON_parse :: "string \<Rightarrow> exn + jsval" where
  "JSON_parse text =
     (case tokens text of
        None \<Rightarrow> Inl SyntaxError
      | Some ts \<Rightarrow>
          (case parse_tokens (ExpectValue, []) ts of
             Some (Finished v, []) \<Rightarrow> Inr v
           | _ \<Rightarrow> Inl SyntaxError))"

section \<open>The shared data model\<close>

record VoiceAnalysis =
  gender :: string
  pitch :: string
  characteristics :: "string list"
  visualDescription :: string

record Voice =
  name :: string
  pitch :: string
  characteristics :: "string list"
  audioSampleUrl :: string
  fileUri :: string
  analysis :: VoiceAnalysis
  imageUrl :: string

text \<open>
  \<open>AiRecommendation\<close> as the finder builds it at run time. The interface declares
  \<open>voiceNames\<close>, \<open>systemInstruction\<close> and \<open>sampleText\<close> as strings and string
  arrays, but the finder stores what the parsed response holds, whatever its type, so the
  fields carry untyped values. The two optional properties are \<open>None\<close> when the object
  literal does not have them.
\<close>

record AiRecommendation =
  voiceNames :: jsval
  systemInstruction :: jsval
  sampleText :: jsval
  isMultiSpeaker :: "bool option"
  scriptParts :: "jsval option"

section \<open>VoiceFinder: the request builder\<close>

datatype Mode = Persona | Script

text \<open>
  The request. The two prompts are template literals with two holes, \<open>${query}\<close> and
  \<open>${JSON.stringify(simplifiedVoices)}\<close>, and the two schemas are fixed object literals,
  so a prompt is carried as its template and the values of its holes, and a schema by its
  name.
\<close>

type_synonym SimplifiedVoice = "string \<times> string \<times> string list"

datatype prompt =
    personaPrompt string "SimplifiedVoice list"
  | scriptPrompt string "SimplifiedVoice list"

datatype schema = PersonaSchema | ScriptSchema

record request =
  model :: string
  contents :: prompt
  responseSchema :: schema

text \<open>
  What the awaited \<open>ai.models.generateContent\<close> gives: it throws (the network or the
  service fails; a client that cannot be built for want of an API key counts as this too),
  or it returns a response, whose \<open>text\<close> is a string or \<open>undefined\<close>.
\<close>

datatype response = Rejected | Response "string option"

definition simplifiedVoices :: "Voice list \<Rightarrow> SimplifiedVoice list" where
  "simplifiedVoices voices =
     map (\<lambda>v. (Voice.name v, gender (analysis v), VoiceAnalysis.characteristics (analysis v)))
       voices"

definition build_request :: "Mode \<Rightarrow> string \<Rightarrow> Voice list \<Rightarrow> request" where
  "build_request m q voices =
     \<lparr>model = ''gemini-3-flash-preview'',
      contents = (case m of
                    Persona \<Rightarrow> personaPrompt q (simplifiedVoices voices)
                  | Script \<Rightarrow> scriptPrompt q (simplifiedVoices voices)),
      responseSchema = (case m of Persona \<Rightarrow> PersonaSchema | Script \<Rightarrow> ScriptSchema)\<rparr>"

text \<open>\<open>response.text || '{}'\<close>: an absent text and the empty text give \<open>{}\<close>.\<close>

definition text_or_braces :: "string option \<Rightarrow> string" where
  "text_or_braces text = (case text of None \<Rightarrow> ''{}'' | Some t \<Rightarrow> if t = [] then ''{}'' else t)"

text \<open>
  The argument of \<open>onRecommendation\<close>, from the parsed \<open>result\<close>: the two object literals
  of the source, their properties evaluated in the order in which they are written.
\<close>

definition recommendation :: "Mode \<Rightarrow> jsval \<Rightarrow> exn + AiRecommendation" where
  "recommendation m result =
     (case m of
        Persona \<Rightarrow>
          and_then (Get result ''recommendedVoices'') (\<lambda>recommendedVoices.
          and_then (Get result ''systemInstruction'') (\<lambda>instruction.
          and_then (Get result ''sampleText'') (\<lambda>sample.
            Inr \<lparr>voiceNames = js_or recommendedVoices (JArray []),
                 systemInstruction = js_or instruction (JString []),
                 sampleText = js_or sample (JString []),
                 isMultiSpeaker = Some False,
                 scriptParts = None\<rparr>)))
      | Script \<Rightarrow>
          and_then (Get result ''scriptParts'') (\<lambda>parts.
          and_then (Array_map (\<lambda>p. Get p ''voiceName'') (js_or parts (JArray []))) (\<lambda>names.
          and_then (Get result ''systemInstruction'') (\<lambda>instruction.
          and_then (Get result ''sampleText'') (\<lambda>sample.
          and_then (Get result ''scriptParts'') (\<lambda>parts'.
            Inr \<lparr>voiceNames = JArray (Array_from (new_Set names)),
                 systemInstruction = js_or instruction (JString []),
                 sampleText = js_or sample (JString []),
                 isMultiSpeaker = Some True,
                 scriptParts = Some (js_or parts' (JArray []))\<rparr>))))))"

text \<open>
  The body of the \<open>try\<close> block up to the call of \<open>onRecommendation\<close>: the request is
  sent, the text of the response is parsed, and the recommendation is built. \<open>Inl\<close> is
  the exception that reaches the \<open>catch\<close>.
\<close>

definition analyze :: "(request \<Rightarrow> response) \<Rightarrow> Voice list \<Rightarrow> Mode \<Rightarrow> string \<Rightarrow> exn + AiRecommendation" where
  "analyze generateContent voices m q =
     (case generateContent (build_request m q voices) of
        Rejected \<Rightarrow> Inl ApiError
      | Response text \<Rightarrow>
          and_then (JSON_parse (text_or_braces text)) (\<lambda>result. recommendation m result))"

text \<open>
  The state of the finder (\<open>mode\<close>, \<open>query\<close>, \<open>loading\<close>, \<open>error\<close>) with what
  \<open>handleAnalyze\<close> does outside the component: \<open>requests\<close> are the calls of
  \<open>generateContent\<close> so far, and \<open>parent\<close> is the state of the owner of
  \<open>onRecommendation\<close>, which only that callback changes.
\<close>

record 'p finder =
  mode :: Mode
  query :: string
  loading :: bool
  error :: "string option"
  requests :: "request list"
  parent :: 'p

definition handleAnalyze ::
  "(AiRecommendation option \<Rightarrow> 'p \<Rightarrow> 'p) \<Rightarrow> (request \<Rightarrow> response) \<Rightarrow> Voice list \<Rightarrow>
     'p finder \<Rightarrow> 'p finder" where
  "handleAnalyze onRecommendation generateContent voices s =
     (if trim (query s) = [] then s
      else
        let s = s\<lparr>loading := True\<rparr>;
            s = s\<lparr>error := None\<rparr>;
            s = s\<lparr>requests := requests s @ [build_request (mode s) (query s) voices]\<rparr>;
            s = (case analyze generateContent voices (mode s) (query s) of
                   Inr rec \<Rightarrow> s\<lparr>parent := onRecommendation (Some rec) (parent s)\<rparr>
                 | Inl err \<Rightarrow>
                     s\<lparr>error := Some ''Failed to analyze. Check your script or try again.''\<rparr>)
        in s\<lparr>loading := False\<rparr>)"

section \<open>Properties of the presenter\<close>

subsection \<open>Heading normalisation\<close>

lemma replace_headings_Cons: "\<exists>t. replace_headings (c # cs) = c # t"
  by (auto split: option.splits if_splits)

lemma match_hashes_replace:
  "match_hashes s = None \<Longrightarrow> match_hashes (replace_headings s) = None"
  by (cases s rule: match_hashes.cases) (auto split: option.splits if_splits)

lemma isWhiteSpace_not_HASH: "isWhiteSpace c \<Longrightarrow> c \<noteq> HASH"
  by (auto simp: isWhiteSpace_def)

lemma match_hashes_ws: "isWhiteSpace c \<Longrightarrow> match_hashes (c # cs) = None"
  by (cases cs) (auto simp: isWhiteSpace_not_HASH)

lemma match_spaces_hashes_replace:
  "match_spaces_hashes s = None \<Longrightarrow> match_spaces_hashes (replace_headings s) = None"
proof (induction s)
  case Nil
  then show ?case by simp
next
  case (Cons c cs)
  show ?case
  proof (cases "isWhiteSpace c")
    case True
    with Cons.prems have n: "match_spaces_hashes cs = None"
      by (auto split: option.splits)
    then have r: "replace_headings (c # cs) = c # replace_headings cs"
      by (auto split: option.splits)
    from Cons.IH [OF n] True show ?thesis
      unfolding r by (simp add: match_hashes_ws)
  next
    case False
    with Cons.prems have "match_hashes (c # cs) = None" by simp
    then have "match_hashes (replace_headings (c # cs)) = None"
      by (rule match_hashes_replace)
    moreover obtain t where t: "replace_headings (c # cs) = c # t"
      using replace_headings_Cons by blast
    ultimately show ?thesis using False by simp
  qed
qed

lemma match_spaces_hashes_LF_LF:
  "match_spaces_hashes (LF # LF # HASH # HASH # t) = Some t"
  by (simp add: isWhiteSpace_def)

lemma replace_headings_idem: "replace_headings (replace_headings s) = replace_headings s"
proof (induction s rule: replace_headings.induct)
  case 1
  then show ?case by simp
next
  case (2 c cs)
  show ?case
  proof (cases "match_heading (c # cs)")
    case None
    then have r: "replace_headings (c # cs) = c # replace_headings cs" by simp
    have "match_heading (c # replace_headings cs) = None"
      using None match_spaces_hashes_replace [of cs]
      by (auto split: if_splits option.splits)
    then show ?thesis
      using 2(1) [OF None] r by simp
  next
    case (Some p)
    obtain g1 rest where p: "p = (g1, rest)" by (cases p)
    with Some have g: "g1 = c" "c \<noteq> LF" by (auto split: if_splits option.splits)
    have r: "replace_headings (c # cs) = c # LF # LF # HASH # HASH # replace_headings rest"
      using Some p g by simp
    have "match_heading (c # LF # LF # HASH # HASH # replace_headings rest)
            = Some (c, replace_headings rest)"
      using g match_spaces_hashes_LF_LF by simp
    then show ?thesis
      using 2(2) [OF Some p [symmetric]] r g by simp
  qed
qed







text \<open>
  C3. The heading normalisation that the presenter applies to \<open>systemInstruction\<close> is
  idempotent: for every string, normalising the normalised text gives the normalised text.
\<close>

theorem formattedInstruction_idempotent:
  "formattedInstruction (formattedInstruction s) = formattedInstruction s"
  by (simp add: formattedInstruction_def replace_headings_idem)




subsection \<open>Copy to clipboard\<close>






section \<open>Properties of the finder\<close>

subsection \<open>Auxiliary facts\<close>

lemma trim_empty_iff: "trim s = [] \<longleftrightarrow> (\<forall>c\<in>set s. isWhiteSpace c)"
proof
  assume "trim s = []"
  then have "\<forall>c\<in>set (dropWhile isWhiteSpace s). isWhiteSpace c"
    by (simp add: trim_def)
  then have "dropWhile isWhiteSpace s = []"
    using hd_dropWhile [of isWhiteSpace s] by (cases "dropWhile isWhiteSpace s") auto
  then show "\<forall>c\<in>set s. isWhiteSpace c"
    by simp
next
  assume "\<forall>c\<in>set s. isWhiteSpace c"
  then have d: "dropWhile isWhiteSpace s = []" by simp
  show "trim s = []" unfolding trim_def d by simp
qed

lemma handleAnalyze_success:
  assumes "trim (query s) \<noteq> []"
      and "analyze generateContent voices (mode s) (query s) = Inr rec"
  shows "handleAnalyze onRecommendation generateContent voices s =
           s\<lparr>loading := False, error := None,
             requests := requests s @ [build_request (mode s) (query s) voices],
             parent := onRecommendation (Some rec) (parent s)\<rparr>"
  using assms by (simp add: handleAnalyze_def)

lemma handleAnalyze_failure:
  assumes "trim (query s) \<noteq> []"
      and "analyze generateContent voices (mode s) (query s) = Inl e"
  shows "handleAnalyze onRecommendation generateContent voices s =
           s\<lparr>loading := False,
             error := Some ''Failed to analyze. Check your script or try again.'',
             requests := requests s @ [build_request (mode s) (query s) voices]\<rparr>"
  using assms by (simp add: handleAnalyze_def)

lemmas json_eval =
  JSON_parse_def next_token_def isJsonSpace_def lex_literal_def isDigit_def add_char_def
  simple_escape_def unicode_escape_def hex_value_def units_def

lemmas analyze_eval =
  analyze_def recommendation_def and_then_def js_or_def text_or_braces_def new_Set_def
  Set_add_def Array_from_def

lemma JSON_parse_braces: "JSON_parse ''{}'' = Inr (JObject [])"
  by (simp add: json_eval)

lemma recommendation_empty_object:
  "recommendation Persona (JObject []) =
     Inr \<lparr>voiceNames = JArray [], systemInstruction = JString [], sampleText = JString [],
          isMultiSpeaker = Some False, scriptParts = None\<rparr>"
  "recommendation Script (JObject []) =
     Inr \<lparr>voiceNames = JArray [], systemInstruction = JString [], sampleText = JString [],
          isMultiSpeaker = Some True, scriptParts = Some (JArray [])\<rparr>"
  by (simp_all add: recommendation_def and_then_def js_or_def new_Set_def Array_from_def)

text \<open>A value that \<open>JSON.parse\<close> returns is never \<open>undefined\<close>.\<close>

lemma complete_Finished:
  "complete_value v stack = (Finished w, stack') \<Longrightarrow> w = v"
  by (cases "(v, stack)" rule: complete_value.cases) auto

lemma start_value_Finished:
  "start_value t stack = Some (Finished w, stack') \<Longrightarrow> w \<noteq> JUndefined"
  by (cases "(t, stack)" rule: start_value.cases) (auto dest: complete_Finished)

lemma close_array_Finished:
  "close_array stack = Some (Finished w, stack') \<Longrightarrow> w \<noteq> JUndefined"
  by (cases stack rule: close_array.cases) (auto dest: complete_Finished)

lemma close_object_Finished:
  "close_object stack = Some (Finished w, stack') \<Longrightarrow> w \<noteq> JUndefined"
  by (cases stack rule: close_object.cases) (auto dest: complete_Finished)

lemma read_key_Finished:
  "read_key t stack = Some (Finished w, stack') \<Longrightarrow> False"
  by (cases "(t, stack)" rule: read_key.cases) auto

lemma parse_step_Finished:
  "parse_step st t = Some (Finished w, stack') \<Longrightarrow> w \<noteq> JUndefined"
  by (cases "(st, t)" rule: parse_step.cases)
     (auto split: if_splits list.splits frame.splits
           dest: start_value_Finished close_array_Finished close_object_Finished
                 read_key_Finished)

lemma parse_tokens_Finished:
  "parse_tokens st ts = Some (Finished w, stack') \<Longrightarrow>
     (\<And>v stack. st = (Finished v, stack) \<Longrightarrow> v \<noteq> JUndefined) \<Longrightarrow> w \<noteq> JUndefined"
proof (induction ts arbitrary: st)
  case Nil
  then show ?case by simp
next
  case (Cons t ts)
  from Cons.prems(1) obtain st' where
    st: "parse_step st t = Some st'" and r: "parse_tokens st' ts = Some (Finished w, stack')"
    by (auto split: option.splits)
  show ?case
  proof (rule Cons.IH [OF r])
    fix v stack
    assume "st' = (Finished v, stack)"
    with st show "v \<noteq> JUndefined" by (auto dest: parse_step_Finished)
  qed
qed

lemma JSON_parse_defined: "JSON_parse text = Inr v \<Longrightarrow> v \<noteq> JUndefined"
proof -
  assume "JSON_parse text = Inr v"
  then obtain ts where "parse_tokens (ExpectValue, []) ts = Some (Finished v, [])"
    by (auto simp: JSON_parse_def split: option.splits expect.splits list.splits)
  then show ?thesis by (rule parse_tokens_Finished) simp
qed

text \<open>Reading properties.\<close>

lemma Get_defined: "v \<noteq> JNull \<Longrightarrow> v \<noteq> JUndefined \<Longrightarrow> \<exists>x. Get v key = Inr x"
  by (cases v) auto

lemma traverse_Get:
  "\<forall>p\<in>set parts. p \<noteq> JNull \<and> p \<noteq> JUndefined \<Longrightarrow>
     \<exists>names. traverse (\<lambda>p. Get p key) parts = Inr names"
proof (induction parts)
  case Nil
  then show ?case by simp
next
  case (Cons p parts)
  then obtain names where "traverse (\<lambda>p. Get p key) parts = Inr names" by auto
  moreover from Cons.prems obtain x where "Get p key = Inr x"
    using Get_defined [of p key] by auto
  ultimately show ?case by (simp add: and_then_def)
qed

lemma traverse_map: "traverse f xs = Inr ys \<longleftrightarrow> map f xs = map Inr ys"
proof (induction xs arbitrary: ys)
  case Nil
  then show ?case by auto
next
  case (Cons x xs)
  show ?case
  proof (cases "f x")
    case (Inl e)
    then show ?thesis by (cases ys) (auto simp: and_then_def)
  next
    case (Inr y)
    show ?thesis
    proof (cases "traverse f xs")
      case (Inl e)
      with Inr Cons.IH show ?thesis by (cases ys) (auto simp: and_then_def)
    next
      case r: (Inr zs)
      with Inr Cons.IH [of zs] Cons.IH show ?thesis
        by (cases ys) (auto simp: and_then_def)
    qed
  qed
qed

lemma Array_map_Inr:
  "Array_map f v = Inr names \<Longrightarrow> \<exists>elems. v = JArray elems \<and> traverse f elems = Inr names"
  by (cases "(f, v)" rule: Array_map.cases) auto

text \<open>The set construction.\<close>

lemma SameValueZero_eq: "SameValueZero x y \<Longrightarrow> x = y"
  by (cases x) auto

lemma SameValueZero_primitive: "is_primitive x \<Longrightarrow> SameValueZero x y \<longleftrightarrow> x = y"
  by (cases x) auto

lemma set_Set_add: "set (Set_add s x) = insert x (set s)"
  by (auto simp: Set_add_def list_ex_iff dest: SameValueZero_eq)

lemma set_foldl_Set_add: "set (foldl Set_add s xs) = set s \<union> set xs"
  by (induction xs arbitrary: s) (auto simp: set_Set_add)

lemma set_new_Set: "set (new_Set xs) = set xs"
  by (simp add: new_Set_def set_foldl_Set_add)

lemma foldl_Set_add_first_occurrences:
  "foldl Set_add s xs =
     s @ first_occurrences (filter (\<lambda>y. \<not> list_ex (\<lambda>a. SameValueZero a y) s) xs)"
proof (induction xs arbitrary: s)
  case Nil
  then show ?case by simp
next
  case (Cons x xs)
  show ?case
  proof (cases "list_ex (\<lambda>a. SameValueZero a x) s")
    case True
    then have "Set_add s x = s" by (simp add: Set_add_def)
    with True Cons.IH [of s] show ?thesis by simp
  next
    case False
    then have a: "Set_add s x = s @ [x]" by (simp add: Set_add_def)
    have "\<And>y. list_ex (\<lambda>a. SameValueZero a y) (s @ [x])
             \<longleftrightarrow> list_ex (\<lambda>a. SameValueZero a y) s \<or> SameValueZero x y"
      by (auto simp: list_ex_iff)
    then have "filter (\<lambda>y. \<not> list_ex (\<lambda>a. SameValueZero a y) (s @ [x])) xs
                 = filter (\<lambda>y. \<not> SameValueZero x y)
                     (filter (\<lambda>y. \<not> list_ex (\<lambda>a. SameValueZero a y) s) xs)"
      by (simp add: conj_commute)
    with False a Cons.IH [of "s @ [x]"] show ?thesis by simp
  qed
qed

lemma new_Set_first_occurrences: "new_Set xs = first_occurrences xs"
  using foldl_Set_add_first_occurrences [of "[]" xs]
  by (simp add: new_Set_def)

lemma set_first_occurrences: "set (first_occurrences xs) = set xs"
  using set_new_Set [of xs] by (simp add: new_Set_first_occurrences)

lemma first_occurrences_no_duplicates:
  "i < j \<Longrightarrow> j < length (first_occurrences xs) \<Longrightarrow>
     \<not> SameValueZero (first_occurrences xs ! i) (first_occurrences xs ! j)"
proof (induction xs arbitrary: i j rule: first_occurrences.induct)
  case 1
  then show ?case by simp
next
  case (2 x xs)
  let ?r = "first_occurrences (filter (\<lambda>y. \<not> SameValueZero x y) xs)"
  from 2(2,3) obtain j' where j: "j = Suc j'" by (cases j) auto
  show ?case
  proof (cases i)
    case 0
    from j 2(3) have "?r ! j' \<in> set ?r" by simp
    then have "\<not> SameValueZero x (?r ! j')" by (simp add: set_first_occurrences)
    with 0 j show ?thesis by simp
  next
    case (Suc i')
    from 2(1) [of i' j'] 2(2,3) Suc j show ?thesis by simp
  qed
qed

lemma first_occurrences_distinct:
  "list_all is_primitive xs \<Longrightarrow> distinct (first_occurrences xs)"
proof (induction xs rule: first_occurrences.induct)
  case 1
  then show ?case by simp
next
  case (2 x xs)
  let ?ys = "filter (\<lambda>y. \<not> SameValueZero x y) xs"
  from 2(2) have p: "is_primitive x" and "list_all is_primitive ?ys"
    by (auto simp: list_all_iff)
  with 2(1) have "distinct (first_occurrences ?ys)" by simp
  moreover have "x \<notin> set ?ys" using p by (auto simp: SameValueZero_primitive)
  ultimately show ?case by (simp add: set_first_occurrences)
qed

lemma remdups_snoc: "remdups (ys @ [x]) = remdups (filter (\<lambda>y. y \<noteq> x) ys) @ [x]"
  by (induction ys) auto

lemma first_occurrences_remdups:
  "list_all is_primitive xs \<Longrightarrow> first_occurrences xs = rev (remdups (rev xs))"
proof (induction xs rule: first_occurrences.induct)
  case 1
  then show ?case by simp
next
  case (2 x xs)
  let ?ys = "filter (\<lambda>y. \<not> SameValueZero x y) xs"
  from 2(2) have p: "is_primitive x" and a: "list_all is_primitive ?ys"
    by (auto simp: list_all_iff)
  have f: "?ys = filter (\<lambda>y. y \<noteq> x) xs"
    using p by (auto simp: SameValueZero_primitive intro: filter_cong)
  have "rev (remdups (rev (x # xs))) = rev (remdups (filter (\<lambda>y. y \<noteq> x) (rev xs)) @ [x])"
    by (simp add: remdups_snoc)
  also have "\<dots> = x # rev (remdups (rev ?ys))"
    by (simp add: f rev_filter)
  finally show ?case using 2(1) [OF a] by simp
qed

text \<open>What a successful analysis in script mode has built.\<close>

lemma analyze_script_success:
  assumes "analyze generateContent voices Script q = Inr rec"
  shows "\<exists>parts names. scriptParts rec = Some (JArray parts) \<and>
           map (\<lambda>p. Get p ''voiceName'') parts = map Inr names \<and>
           voiceNames rec = JArray (new_Set names)"
proof -
  from assms obtain result where r: "recommendation Script result = Inr rec"
    by (auto simp: analyze_def and_then_def split: response.splits sum.splits)
  then obtain sp names where
    sp: "Get result ''scriptParts'' = Inr sp" and
    m: "Array_map (\<lambda>p. Get p ''voiceName'') (js_or sp (JArray [])) = Inr names" and
    v: "voiceNames rec = JArray (new_Set names)" and
    s: "scriptParts rec = Some (js_or sp (JArray []))"
    by (auto simp: recommendation_def and_then_def Array_from_def split: sum.splits)
  from Array_map_Inr [OF m] obtain parts where
    "js_or sp (JArray []) = JArray parts" "traverse (\<lambda>p. Get p ''voiceName'') parts = Inr names"
    by blast
  with v s show ?thesis by (auto simp: traverse_map)
qed

subsection \<open>The recommendation\<close>

text \<open>
  C1. After every successful analysis in script mode, \<open>scriptParts\<close> is an array, and
  \<open>voiceNames\<close> holds exactly the values that its entries have as \<open>voiceName\<close>, each of
  them once: no two entries of \<open>voiceNames\<close> are the same value for a \<open>Set\<close>, and when
  the names are primitive values, strings as the interface declares them, \<open>voiceNames\<close>
  is a list of distinct elements.
\<close>

theorem analyze_voiceNames_distinct:
  assumes "analyze generateContent voices Script q = Inr rec"
  shows "\<exists>parts names vs.
           scriptParts rec = Some (JArray parts) \<and>
           map (\<lambda>p. Get p ''voiceName'') parts = map Inr names \<and>
           voiceNames rec = JArray vs \<and>
           set vs = set names \<and>
           (\<forall>i j. i < j \<and> j < length vs \<longrightarrow> \<not> SameValueZero (vs ! i) (vs ! j)) \<and>
           (list_all is_primitive names \<longrightarrow> distinct vs)"
proof -
  from analyze_script_success [OF assms] obtain parts names where
    a: "scriptParts rec = Some (JArray parts)"
       "map (\<lambda>p. Get p ''voiceName'') parts = map Inr names"
       "voiceNames rec = JArray (new_Set names)"
    by blast
  have "set (new_Set names) = set names" by (rule set_new_Set)
  moreover have "\<forall>i j. i < j \<and> j < length (new_Set names) \<longrightarrow>
                   \<not> SameValueZero (new_Set names ! i) (new_Set names ! j)"
    by (simp add: new_Set_first_occurrences first_occurrences_no_duplicates)
  moreover have "list_all is_primitive names \<longrightarrow> distinct (new_Set names)"
    by (simp add: new_Set_first_occurrences first_occurrences_distinct)
  ultimately show ?thesis using a by blast
qed

theorem analyze_voiceNames_distinct_witness:
  "analyze
     (\<lambda>req. Response (Some
        ''{\"scriptParts\":[{\"speaker\":\"Alex\",\"text\":\"We found it.\",\"voiceName\":\"Kore\"},{\"speaker\":\"Sarah\",\"text\":\"Be careful.\",\"voiceName\":\"Puck\"},{\"speaker\":\"Alex\",\"text\":\"Go.\",\"voiceName\":\"Kore\"}],\"systemInstruction\":\"## Scene\",\"sampleText\":\"We found it.\"}''))
     [] Script ''Alex: We found it.''
   = Inr \<lparr>voiceNames = JArray [JString (units ''Kore''), JString (units ''Puck'')],
          systemInstruction = JString (units ''## Scene''), sampleText = JString (units ''We found it.''),
          isMultiSpeaker = Some True,
          scriptParts = Some (JArray
            [JObject [(units ''speaker'', JString (units ''Alex'')), (units ''text'', JString (units ''We found it.'')),
                      (units ''voiceName'', JString (units ''Kore''))],
             JObject [(units ''speaker'', JString (units ''Sarah'')), (units ''text'', JString (units ''Be careful.'')),
                      (units ''voiceName'', JString (units ''Puck''))],
             JObject [(units ''speaker'', JString (units ''Alex'')), (units ''text'', JString (units ''Go.'')),
                      (units ''voiceName'', JString (units ''Kore''))]])\<rparr>"
  using analyze_voiceNames_distinct
    [of "\<lambda>req. Response (Some
        ''{\"scriptParts\":[{\"speaker\":\"Alex\",\"text\":\"We found it.\",\"voiceName\":\"Kore\"},{\"speaker\":\"Sarah\",\"text\":\"Be careful.\",\"voiceName\":\"Puck\"},{\"speaker\":\"Alex\",\"text\":\"Go.\",\"voiceName\":\"Kore\"}],\"systemInstruction\":\"## Scene\",\"sampleText\":\"We found it.\"}'')"
      "[]" "''Alex: We found it.''"]
  by (simp add: json_eval analyze_eval)

text \<open>
  C10. After every successful analysis in script mode, \<open>voiceNames\<close> lists the
  \<open>voiceName\<close> values of the entries of \<open>scriptParts\<close> in the order of their first
  occurrences; for primitive names that is the list of names with every repetition after
  the first removed.
\<close>

theorem analyze_voiceNames_first_occurrence_order:
  assumes "analyze generateContent voices Script q = Inr rec"
  shows "\<exists>parts names.
           scriptParts rec = Some (JArray parts) \<and>
           map (\<lambda>p. Get p ''voiceName'') parts = map Inr names \<and>
           voiceNames rec = JArray (first_occurrences names) \<and>
           (list_all is_primitive names \<longrightarrow>
              voiceNames rec = JArray (rev (remdups (rev names))))"
proof -
  from analyze_script_success [OF assms] obtain parts names where
    a: "scriptParts rec = Some (JArray parts)"
       "map (\<lambda>p. Get p ''voiceName'') parts = map Inr names"
       "voiceNames rec = JArray (new_Set names)"
    by blast
  then show ?thesis
    using first_occurrences_remdups [of names]
    by (auto simp: new_Set_first_occurrences)
qed

theorem analyze_voiceNames_first_occurrence_order_witness:
  "analyze
     (\<lambda>req. Response (Some
        ''{\"scriptParts\":[{\"voiceName\":\"Puck\"},{\"voiceName\":\"Kore\"},{\"voiceName\":\"Puck\"},{\"voiceName\":\"Zephyr\"},{\"voiceName\":\"Kore\"}]}''))
     [] Script ''PA System: Attention.''
   = Inr \<lparr>voiceNames = JArray [JString (units ''Puck''), JString (units ''Kore''), JString (units ''Zephyr'')],
          systemInstruction = JString [], sampleText = JString [],
          isMultiSpeaker = Some True,
          scriptParts = Some (JArray
            [JObject [(units ''voiceName'', JString (units ''Puck''))],
             JObject [(units ''voiceName'', JString (units ''Kore''))],
             JObject [(units ''voiceName'', JString (units ''Puck''))],
             JObject [(units ''voiceName'', JString (units ''Zephyr''))],
             JObject [(units ''voiceName'', JString (units ''Kore''))]])\<rparr>"
  using analyze_voiceNames_first_occurrence_order
    [of "\<lambda>req. Response (Some
        ''{\"scriptParts\":[{\"voiceName\":\"Puck\"},{\"voiceName\":\"Kore\"},{\"voiceName\":\"Puck\"},{\"voiceName\":\"Zephyr\"},{\"voiceName\":\"Kore\"}]}'')"
      "[]" "''PA System: Attention.''"]
  by (simp add: json_eval analyze_eval)

text \<open>
  C2. In every recommendation that an analysis produces, \<open>scriptParts\<close> is present, and
  not \<open>undefined\<close>, exactly when \<open>isMultiSpeaker\<close> is true: persona mode gives
  \<open>isMultiSpeaker = false\<close> and no \<open>scriptParts\<close>, script mode gives
  \<open>isMultiSpeaker = true\<close> and an array as \<open>scriptParts\<close>.
\<close>

theorem analyze_scriptParts_iff_isMultiSpeaker:
  assumes "analyze generateContent voices m q = Inr rec"
  shows "((\<exists>v. scriptParts rec = Some v \<and> v \<noteq> JUndefined) \<longleftrightarrow> isMultiSpeaker rec = Some True) \<and>
         (m = Persona \<longrightarrow> isMultiSpeaker rec = Some False \<and> scriptParts rec = None) \<and>
         (m = Script \<longrightarrow>
            isMultiSpeaker rec = Some True \<and> (\<exists>parts. scriptParts rec = Some (JArray parts)))"
proof (cases m)
  case Persona
  from assms obtain result where "recommendation m result = Inr rec"
    by (auto simp: analyze_def and_then_def split: response.splits sum.splits)
  with Persona show ?thesis
    by (auto simp: recommendation_def and_then_def split: sum.splits)
next
  case Script
  from assms obtain result where "recommendation m result = Inr rec"
    by (auto simp: analyze_def and_then_def split: response.splits sum.splits)
  with Script have i: "isMultiSpeaker rec = Some True"
    by (auto simp: recommendation_def and_then_def split: sum.splits)
  from analyze_script_success [of generateContent voices q rec] assms Script
  obtain parts where "scriptParts rec = Some (JArray parts)" by blast
  with i Script show ?thesis by simp
qed

theorem analyze_scriptParts_iff_isMultiSpeaker_witness:
  "analyze (\<lambda>req. Response (Some ''{\"recommendedVoices\":[\"Kore\",\"Puck\"]}'')) [] Persona
     ''a warm voice''
   = Inr \<lparr>voiceNames = JArray [JString (units ''Kore''), JString (units ''Puck'')],
          systemInstruction = JString [], sampleText = JString [],
          isMultiSpeaker = Some False, scriptParts = None\<rparr> \<and>
   analyze (\<lambda>req. Response (Some ''{}'')) [] Script ''Alex: hi''
   = Inr \<lparr>voiceNames = JArray [], systemInstruction = JString [], sampleText = JString [],
          isMultiSpeaker = Some True, scriptParts = Some (JArray [])\<rparr> \<and>
   analyze (\<lambda>req. Response (Some ''{\"scriptParts\":[{\"voiceName\":\"Kore\"}]}'')) [] Script
     ''Alex: hi''
   = Inr \<lparr>voiceNames = JArray [JString (units ''Kore'')],
          systemInstruction = JString [], sampleText = JString [],
          isMultiSpeaker = Some True,
          scriptParts = Some (JArray [JObject [(units ''voiceName'', JString (units ''Kore''))]])\<rparr>"
  using analyze_scriptParts_iff_isMultiSpeaker
    [of "\<lambda>req. Response (Some ''{\"recommendedVoices\":[\"Kore\",\"Puck\"]}'')" "[]" Persona
        "''a warm voice''"]
    analyze_scriptParts_iff_isMultiSpeaker
    [of "\<lambda>req. Response (Some ''{}'')" "[]" Script "''Alex: hi''"]
    analyze_scriptParts_iff_isMultiSpeaker
    [of "\<lambda>req. Response (Some ''{\"scriptParts\":[{\"voiceName\":\"Kore\"}]}'')" "[]" Script
        "''Alex: hi''"]
  by (simp add: json_eval analyze_eval)

text \<open>
  C7, as the code has it. When the text of the response parses to a value other than
  \<open>null\<close>, and in script mode \<open>scriptParts\<close> is missing or is an array with no
  \<open>null\<close> among its entries, the analysis succeeds, and in its recommendation a missing
  \<open>systemInstruction\<close> or \<open>sampleText\<close> is the empty string, a missing
  \<open>recommendedVoices\<close> leaves \<open>voiceNames\<close> empty in persona mode, and a missing
  \<open>scriptParts\<close> leaves \<open>scriptParts\<close> and \<open>voiceNames\<close> empty in script mode.
\<close>

theorem analyze_defaults_missing_fields:
  assumes "generateContent (build_request m q voices) = Response text"
      and "JSON_parse (text_or_braces text) = Inr result"
      and "result \<noteq> JNull"
      and "m = Script \<Longrightarrow>
             Get result ''scriptParts'' = Inr JUndefined \<or>
             (\<exists>parts. Get result ''scriptParts'' = Inr (JArray parts) \<and>
                (\<forall>p\<in>set parts. p \<noteq> JNull \<and> p \<noteq> JUndefined))"
  shows "\<exists>rec. analyze generateContent voices m q = Inr rec \<and>
           (Get result ''systemInstruction'' = Inr JUndefined \<longrightarrow>
              systemInstruction rec = JString []) \<and>
           (Get result ''sampleText'' = Inr JUndefined \<longrightarrow> sampleText rec = JString []) \<and>
           (m = Persona \<and> Get result ''recommendedVoices'' = Inr JUndefined \<longrightarrow>
              voiceNames rec = JArray []) \<and>
           (m = Script \<and> Get result ''scriptParts'' = Inr JUndefined \<longrightarrow>
              scriptParts rec = Some (JArray []) \<and> voiceNames rec = JArray [])"
proof -
  have d: "result \<noteq> JUndefined" using assms(2) by (rule JSON_parse_defined)
  have a: "analyze generateContent voices m q = recommendation m result"
    using assms(1,2) by (simp add: analyze_def and_then_def)
  from Get_defined [OF assms(3) d] obtain rv si st sp where
    g: "Get result ''recommendedVoices'' = Inr rv" "Get result ''systemInstruction'' = Inr si"
       "Get result ''sampleText'' = Inr st" "Get result ''scriptParts'' = Inr sp"
    by metis
  show ?thesis
  proof (cases m)
    case Persona
    then show ?thesis
      using a g by (auto simp: recommendation_def and_then_def js_or_def)
  next
    case Script
    have "\<exists>names. Array_map (\<lambda>p. Get p ''voiceName'') (js_or sp (JArray [])) = Inr names \<and>
            (sp = JUndefined \<longrightarrow> names = [])"
    proof (cases "sp = JUndefined")
      case True
      then show ?thesis by (simp add: js_or_def)
    next
      case False
      with assms(4) [OF Script] g(4) obtain parts where
        p: "sp = JArray parts" "\<forall>p\<in>set parts. p \<noteq> JNull \<and> p \<noteq> JUndefined"
        by auto
      from traverse_Get [OF p(2), of "''voiceName''"] p(1) show ?thesis
        by (auto simp: js_or_def)
    qed
    then obtain names where
      "Array_map (\<lambda>p. Get p ''voiceName'') (js_or sp (JArray [])) = Inr names"
      "sp = JUndefined \<longrightarrow> names = []"
      by blast
    then show ?thesis
      using a g Script
      by (auto simp: recommendation_def and_then_def js_or_def new_Set_def Array_from_def)
  qed
qed

theorem analyze_defaults_missing_fields_witness:
  "JSON_parse (text_or_braces (Some ''{\"scriptParts\":[{\"speaker\":\"A\",\"text\":\"Hi\",\"voiceName\":\"Kore\"}]}''))
     = Inr (JObject [(units ''scriptParts'', JArray
              [JObject [(units ''speaker'', JString (units ''A'')), (units ''text'', JString (units ''Hi'')),
                        (units ''voiceName'', JString (units ''Kore''))]])]) \<and>
   analyze
     (\<lambda>req. Response (Some ''{\"scriptParts\":[{\"speaker\":\"A\",\"text\":\"Hi\",\"voiceName\":\"Kore\"}]}''))
     [] Script ''A: Hi''
   = Inr \<lparr>voiceNames = JArray [JString (units ''Kore'')],
          systemInstruction = JString [], sampleText = JString [],
          isMultiSpeaker = Some True,
          scriptParts = Some (JArray
            [JObject [(units ''speaker'', JString (units ''A'')), (units ''text'', JString (units ''Hi'')),
                      (units ''voiceName'', JString (units ''Kore''))]])\<rparr>"
  using analyze_defaults_missing_fields
    [of "\<lambda>req. Response (Some ''{\"scriptParts\":[{\"speaker\":\"A\",\"text\":\"Hi\",\"voiceName\":\"Kore\"}]}'')"
        Script "''A: Hi''" "[]"
        "Some ''{\"scriptParts\":[{\"speaker\":\"A\",\"text\":\"Hi\",\"voiceName\":\"Kore\"}]}''"
        "JObject [(units ''scriptParts'', JArray
              [JObject [(units ''speaker'', JString (units ''A'')), (units ''text'', JString (units ''Hi'')),
                        (units ''voiceName'', JString (units ''Kore''))]])]"]
  by (simp add: json_eval analyze_eval)

text \<open>
  The claim as it is written fails: the text \<open>null\<close> parses as JSON and has none of the
  required fields, and the analysis ends in a TypeError, in either mode. So it does in
  script mode for an object that lacks \<open>systemInstruction\<close> and \<open>sampleText\<close> and
  whose \<open>scriptParts\<close> holds a \<open>null\<close>, or is a string.
\<close>

theorem analyze_null_counterexample:
  "JSON_parse ''null'' = Inr JNull \<and>
   analyze (\<lambda>req. Response (Some ''null'')) [] Persona ''a warm voice'' = Inl TypeError \<and>
   analyze (\<lambda>req. Response (Some ''null'')) [] Script ''A: Hi'' = Inl TypeError \<and>
   JSON_parse ''{\"scriptParts\":[null]}'' = Inr (JObject [(units ''scriptParts'', JArray [JNull])]) \<and>
   analyze (\<lambda>req. Response (Some ''{\"scriptParts\":[null]}'')) [] Script ''A: Hi''
     = Inl TypeError \<and>
   JSON_parse ''{\"scriptParts\":\"x\"}''
     = Inr (JObject [(units ''scriptParts'', JString (units ''x''))]) \<and>
   analyze (\<lambda>req. Response (Some ''{\"scriptParts\":\"x\"}'')) [] Script ''A: Hi''
     = Inl TypeError"
  by (simp add: json_eval analyze_eval)

subsection \<open>The handler\<close>

text \<open>
  C5. When the query is empty or all white space, \<open>handleAnalyze\<close> changes nothing: no
  request is sent, no error is set, the loading flag is not touched, and
  \<open>onRecommendation\<close> is not called.
\<close>

theorem handleAnalyze_blank_query:
  assumes "\<forall>c\<in>set (query s). isWhiteSpace c"
  shows "handleAnalyze onRecommendation generateContent voices s = s"
  using assms by (simp add: handleAnalyze_def trim_empty_iff)

theorem handleAnalyze_blank_query_witness:
  "list_all isWhiteSpace '' \<newline>'' \<and>
   handleAnalyze (\<lambda>rec log. log @ [rec]) (\<lambda>req. Rejected) []
     \<lparr>mode = Persona, query = '' \<newline>'', loading = False, error = None, requests = [],
      parent = ([] :: AiRecommendation option list)\<rparr>
   = \<lparr>mode = Persona, query = '' \<newline>'', loading = False, error = None, requests = [],
      parent = []\<rparr>"
  using handleAnalyze_blank_query
    [of "\<lparr>mode = Persona, query = '' \<newline>'', loading = False, error = None, requests = [],
          parent = ([] :: AiRecommendation option list)\<rparr>"
        "\<lambda>rec log. log @ [rec]" "\<lambda>req. Rejected" "[]"]
  by (simp add: isWhiteSpace_def)

text \<open>
  C9. When the query is not blank and the response has no text, or the empty text, the
  analysis does not fail: \<open>{}\<close> is parsed in its place, and \<open>onRecommendation\<close> is
  called with the recommendation whose fields are all defaults, with empty
  \<open>scriptParts\<close> in script mode; no error is set.
\<close>

theorem handleAnalyze_absent_text:
  assumes "trim (query s) \<noteq> []"
      and "generateContent (build_request (mode s) (query s) voices) = Response text"
      and "text = None \<or> text = Some []"
  shows "handleAnalyze onRecommendation generateContent voices s =
           s\<lparr>loading := False, error := None,
             requests := requests s @ [build_request (mode s) (query s) voices],
             parent := onRecommendation
               (Some \<lparr>voiceNames = JArray [], systemInstruction = JString [],
                      sampleText = JString [],
                      isMultiSpeaker = Some (mode s = Script),
                      scriptParts = (case mode s of Persona \<Rightarrow> None | Script \<Rightarrow> Some (JArray []))\<rparr>)
               (parent s)\<rparr>"
proof -
  from assms(3) have "text_or_braces text = ''{}''"
    by (auto simp: text_or_braces_def)
  then have "analyze generateContent voices (mode s) (query s) = recommendation (mode s) (JObject [])"
    using assms(2) by (simp add: analyze_def and_then_def JSON_parse_braces)
  then show ?thesis
    using handleAnalyze_success [OF assms(1), of generateContent voices _ onRecommendation]
    by (cases "mode s") (simp_all add: recommendation_empty_object)
qed

theorem handleAnalyze_absent_text_witness:
  "trim ''Alex: hi'' \<noteq> [] \<and>
   handleAnalyze (\<lambda>rec log. log @ [rec]) (\<lambda>req. Response None) []
     \<lparr>mode = Script, query = ''Alex: hi'', loading = False, error = None, requests = [],
      parent = []\<rparr>
   = \<lparr>mode = Script, query = ''Alex: hi'', loading = False, error = None,
      requests = [build_request Script ''Alex: hi'' []],
      parent = [Some \<lparr>voiceNames = JArray [], systemInstruction = JString [],
                       sampleText = JString [], isMultiSpeaker = Some True,
                       scriptParts = Some (JArray [])\<rparr>]\<rparr>"
  using handleAnalyze_absent_text
    [of "\<lparr>mode = Script, query = ''Alex: hi'', loading = False, error = None, requests = [],
          parent = ([] :: AiRecommendation option list)\<rparr>"
        "\<lambda>req. Response None" "[]" None "\<lambda>rec log. log @ [rec]"]
  by (simp add: trim_def isWhiteSpace_def)

text \<open>
  C6, as the code has it. When the query is not blank and the text of the response is not
  empty and does not parse as JSON, \<open>handleAnalyze\<close> sets the one error message and does
  not call \<open>onRecommendation\<close>: whatever the owner of the handler has stored stays as it
  was.
\<close>

theorem handleAnalyze_malformed_text:
  assumes "trim (query s) \<noteq> []"
      and "generateContent (build_request (mode s) (query s) voices) = Response (Some text)"
      and "text \<noteq> []"
      and "JSON_parse text = Inl e"
  shows "handleAnalyze onRecommendation generateContent voices s =
           s\<lparr>loading := False,
             error := Some ''Failed to analyze. Check your script or try again.'',
             requests := requests s @ [build_request (mode s) (query s) voices]\<rparr>"
proof -
  have "analyze generateContent voices (mode s) (query s) = Inl e"
    using assms(2-4) by (simp add: analyze_def and_then_def text_or_braces_def)
  then show ?thesis by (rule handleAnalyze_failure [OF assms(1)])
qed

theorem handleAnalyze_malformed_text_witness:
  "trim ''a warm voice'' \<noteq> [] \<and>
   JSON_parse ''Sorry, I cannot do that.'' = Inl SyntaxError \<and>
   handleAnalyze (\<lambda>rec log. log @ [rec]) (\<lambda>req. Response (Some ''Sorry, I cannot do that.'')) []
     \<lparr>mode = Persona, query = ''a warm voice'', loading = False, error = None, requests = [],
      parent = [Some \<lparr>voiceNames = JArray [JString (units ''Kore'')], systemInstruction = JString (units ''## Tone''),
                       sampleText = JString (units ''Hello.''), isMultiSpeaker = Some False,
                       scriptParts = None\<rparr>]\<rparr>
   = \<lparr>mode = Persona, query = ''a warm voice'', loading = False,
      error = Some ''Failed to analyze. Check your script or try again.'',
      requests = [build_request Persona ''a warm voice'' []],
      parent = [Some \<lparr>voiceNames = JArray [JString (units ''Kore'')], systemInstruction = JString (units ''## Tone''),
                       sampleText = JString (units ''Hello.''), isMultiSpeaker = Some False,
                       scriptParts = None\<rparr>]\<rparr>"
  using handleAnalyze_malformed_text
    [of "\<lparr>mode = Persona, query = ''a warm voice'', loading = False, error = None, requests = [],
      parent = [Some \<lparr>voiceNames = JArray [JString (units ''Kore'')], systemInstruction = JString (units ''## Tone''),
                       sampleText = JString (units ''Hello.''), isMultiSpeaker = Some False,
                       scriptParts = None\<rparr>]\<rparr>"
        "\<lambda>req. Response (Some ''Sorry, I cannot do that.'')" "[]" "''Sorry, I cannot do that.''"
        SyntaxError "\<lambda>rec log. log @ [rec]"]
  by (simp add: trim_def isWhiteSpace_def json_eval)

text \<open>
  The claim as it is written fails: the empty text does not parse as JSON, yet with it
  \<open>handleAnalyze\<close> sets no error and calls \<open>onRecommendation\<close> with the defaults.
\<close>

theorem handleAnalyze_empty_text_counterexample:
  "trim ''a warm voice'' \<noteq> [] \<and>
   JSON_parse [] = Inl SyntaxError \<and>
   handleAnalyze (\<lambda>rec log. log @ [rec]) (\<lambda>req. Response (Some [])) []
     \<lparr>mode = Persona, query = ''a warm voice'', loading = False, error = None, requests = [],
      parent = []\<rparr>
   = \<lparr>mode = Persona, query = ''a warm voice'', loading = False, error = None,
      requests = [build_request Persona ''a warm voice'' []],
      parent = [Some \<lparr>voiceNames = JArray [], systemInstruction = JString [],
                       sampleText = JString [], isMultiSpeaker = Some False,
                       scriptParts = None\<rparr>]\<rparr>"
  by (simp add: trim_def isWhiteSpace_def json_eval handleAnalyze_def analyze_eval)

end
